theory Spec2Isabelle
  imports Main "HOL-Library.Sublist" "HOL-Library.Multiset"
begin

section \<open>Notices: eligibility, recurrence tracking and the notice manager (notice.py)\<close>

text \<open>
  A Python \<open>str\<close> is modelled as the \<open>string\<close> of its UTF-8 bytes. The program only
  compares strings for equality, tests them for emptiness and concatenates them, and
  UTF-8 encoding is injective and commutes with concatenation, so nothing is lost.

  A \<open>datetime\<close> is modelled as the number of microseconds since 0001-01-01 00:00:00,
  a \<open>timedelta\<close> as a number of microseconds.
\<close>

type_synonym instant = int
type_synonym timedelta = int

datatype error = ValueError | OverflowError | NameError | DownloadError

subsection \<open>class NoticeShowType\<close>

definition ONCE :: string where "ONCE = ''once''"
definition DAILY :: string where "DAILY = ''daily''"
definition WEEKLY :: string where "WEEKLY = ''weekly''"
definition MONTHLY :: string where "MONTHLY = ''monthly''"
definition ALWAYS :: string where "ALWAYS = ''always''"
definition DEPRECATED :: string where "DEPRECATED = ''deprecated''"

text \<open>The values of the class attributes whose names do not start with two underscores.\<close>

definition valid_notice_show_type :: "string set" where
  "valid_notice_show_type = {ONCE, DAILY, WEEKLY, MONTHLY, ALWAYS, DEPRECATED}"

subsection \<open>class Notice\<close>

record notice =
  sender :: string
  title :: string
  message :: string
  send_at :: string
  show_type :: string
  open_url :: string
  expire_at :: string
  show_only_before_version :: string

text \<open>A stored notice record: a JSON object with string values, in key order.\<close>

type_synonym raw_notice = "(string \<times> string) list"

datatype file_content = Records "raw_notice list" | Unreadable

text \<open>
  The file system: what each path holds (\<open>None\<close>: no such file; \<open>Unreadable\<close>: a file
  that \<open>json.load\<close> fails on) and whether \<open>open(path, "w")\<close> succeeds.
\<close>

record filesystem =
  files :: "string \<Rightarrow> file_content option"
  writable :: "string \<Rightarrow> bool"

text \<open>
  One call of \<open>message_box\<close>: the message, the caption and the URL to open. The
  other two arguments, \<open>icon\<close> and \<open>follow_flag_file\<close>, are the same constants in
  every call.
\<close>

record message_box_call =
  mb_message :: string
  mb_title :: string
  mb_open_url :: string

subsection \<open>The imported modules\<close>

text \<open>
  Everything notice.py imports from the other modules of the program (util, version,
  update, first_run, const, download, data_struct) is a parameter of the model. The
  state \<open>'s\<close> is the world outside the notice list: the clock and the persistent
  first-run store. \<open>parse_time\<close> is \<open>None\<close> where \<open>datetime.strptime\<close> raises
  \<open>ValueError\<close>. Each first-run query returns its answer and the store after it.
  A download returns the file system it leaves, or the exception it raises. The
  decorator \<open>try_except\<close> of util catches every exception of the method it wraps and
  logs it; logging is not modelled.
\<close>

record 's env =
  get_now :: "'s \<Rightarrow> instant"
  format_now :: "'s \<Rightarrow> string"
  format_time :: "instant \<Rightarrow> string"
  parse_time :: "string \<Rightarrow> instant option"
  is_windows :: bool
  now_version :: string
  version_less :: "string \<Rightarrow> string \<Rightarrow> bool"
  is_first_run :: "string \<Rightarrow> 's \<Rightarrow> bool \<times> 's"
  is_daily_first_run :: "string \<Rightarrow> 's \<Rightarrow> bool \<times> 's"
  is_weekly_first_run :: "string \<Rightarrow> 's \<Rightarrow> bool \<times> 's"
  is_monthly_first_run :: "string \<Rightarrow> 's \<Rightarrow> bool \<times> 's"
  reset_first_run :: "string \<Rightarrow> 's \<Rightarrow> 's"
  downloads_dir :: string
  os_path_dirname :: "string \<Rightarrow> string"
  download_github_raw_content :: "string \<Rightarrow> string \<Rightarrow> filesystem \<Rightarrow> error + filesystem"
  auto_update_config :: "notice \<Rightarrow> raw_notice \<Rightarrow> notice"
  to_raw_type :: "notice list \<Rightarrow> raw_notice list"

text \<open>\<open>Notice.__init__\<close>: the class defaults.\<close>

definition Notice_init :: "'s env \<Rightarrow> notice" where
  "Notice_init env =
     \<lparr> sender = [CHR 0xE9, CHR 0xA3, CHR 0x8E, CHR 0xE4, CHR 0xB9, CHR 0x8B,
                 CHR 0xE5, CHR 0x87, CHR 0x8C, CHR 0xE6, CHR 0xAE, CHR 0x87],
       title = [CHR 0xE6, CHR 0xB5, CHR 0x8B, CHR 0xE8, CHR 0xAF, CHR 0x95,
                CHR 0xE6, CHR 0xB6, CHR 0x88, CHR 0xE6, CHR 0x81, CHR 0xAF,
                CHR 0xE6, CHR 0xA0, CHR 0x87, CHR 0xE9, CHR 0xA2, CHR 0x98],
       message = [CHR 0xE6, CHR 0xB5, CHR 0x8B, CHR 0xE8, CHR 0xAF, CHR 0x95,
                  CHR 0xE6, CHR 0xB6, CHR 0x88, CHR 0xE6, CHR 0x81, CHR 0xAF,
                  CHR 0xE5, CHR 0x86, CHR 0x85, CHR 0xE5, CHR 0xAE, CHR 0xB9],
       send_at = ''2021-05-11 00:00:00'',
       show_type = ONCE,
       open_url = '''',
       expire_at = ''2121-05-11 00:00:00'',
       show_only_before_version = now_version env \<rparr>"

text \<open>
  \<open>Notice.__lt__\<close>: compares the parsed \<open>send_at\<close> of both notices; raises where one
  of them does not parse.
\<close>

definition Notice_lt :: "'s env \<Rightarrow> notice \<Rightarrow> notice \<Rightarrow> error + bool" where
  "Notice_lt env self other =
     (case parse_time env (send_at self) of
        None \<Rightarrow> Inl ValueError
      | Some a \<Rightarrow>
          (case parse_time env (send_at other) of
             None \<Rightarrow> Inl ValueError
           | Some b \<Rightarrow> Inr (a < b)))"

text \<open>\<open>Notice.get_first_run_key\<close>: the f-string \<open>notice_need_show_{title}_{send_at}\<close>.\<close>

definition get_first_run_key :: "notice \<Rightarrow> string" where
  "get_first_run_key self = ''notice_need_show_'' @ title self @ ''_'' @ send_at self"

text \<open>
  \<open>Notice.need_show\<close>: the answer and the world after the call, or the exception that
  \<open>parse_time\<close> raises on a malformed \<open>expire_at\<close>.
\<close>

definition need_show :: "'s env \<Rightarrow> notice \<Rightarrow> 's \<Rightarrow> error + (bool \<times> 's)" where
  "need_show env self st =
     (let key = get_first_run_key self in
      case parse_time env (expire_at self) of
        None \<Rightarrow> Inl ValueError
      | Some expire \<Rightarrow>
          if get_now env st > expire then Inr (False, st)
          else if show_only_before_version self \<noteq> '''' \<and>
                  \<not> version_less env (now_version env) (show_only_before_version self)
            then Inr (False, st)
          else if show_type self = ONCE then Inr (is_first_run env key st)
          else if show_type self = DAILY then Inr (is_daily_first_run env key st)
          else if show_type self = WEEKLY then Inr (is_weekly_first_run env key st)
          else if show_type self = MONTHLY then Inr (is_monthly_first_run env key st)
          else if show_type self = ALWAYS then Inr (True, st)
          else if show_type self = DEPRECATED then Inr (False, st)
          else Inr (False, st))"

text \<open>\<open>Notice.reset_first_run\<close>.\<close>

definition Notice_reset_first_run :: "'s env \<Rightarrow> notice \<Rightarrow> 's \<Rightarrow> 's" where
  "Notice_reset_first_run env self st = reset_first_run env (get_first_run_key self) st"

subsection \<open>class NoticeManager\<close>

definition file_name :: string where
  "file_name = ''notices.txt''"

definition cache_path :: "'s env \<Rightarrow> string" where
  "cache_path env = downloads_dir env @ ''/'' @ file_name"

definition save_path :: string where
  "save_path = ''utils/'' @ file_name"

text \<open>\<open>NoticeManager.download_latest_notices\<close>.\<close>

definition download_latest_notices :: "'s env \<Rightarrow> filesystem \<Rightarrow> error + filesystem" where
  "download_latest_notices env fs =
     (let dirpath = os_path_dirname env (cache_path env)
      in download_github_raw_content env save_path dirpath fs)"

text \<open>The sort key that \<open>Notice.__lt__\<close> compares: the parsed \<open>send_at\<close>.\<close>

definition send_at_key :: "'s env \<Rightarrow> notice \<Rightarrow> instant" where
  "send_at_key env n = (case parse_time env (send_at n) of Some t \<Rightarrow> t | None \<Rightarrow> 0)"

text \<open>
  \<open>sorted(self.notices)\<close>: Python's built-in sort is a stable comparison sort that
  orders the elements with \<open>__lt__\<close> alone. \<open>Notice.__lt__\<close> has no effect but its
  answer or its exception, so the result does not depend on which pairs the sort
  compares first; it is modelled as the stable insertion sort, which takes the
  notices from left to right and places each one behind the notices it is not less
  than. An exception of a comparison ends the sort. A list of fewer than two elements
  is returned without any comparison.
\<close>

fun insert_notice :: "'s env \<Rightarrow> notice \<Rightarrow> notice list \<Rightarrow> error + notice list" where
  "insert_notice env x [] = Inr [x]"
| "insert_notice env x (y # ys) =
     (case Notice_lt env x y of
        Inl e \<Rightarrow> Inl e
      | Inr lt \<Rightarrow>
          if lt then Inr (x # y # ys)
          else (case insert_notice env x ys of
                  Inl e \<Rightarrow> Inl e
                | Inr r \<Rightarrow> Inr (y # r)))"

fun sort_into :: "'s env \<Rightarrow> notice list \<Rightarrow> notice list \<Rightarrow> error + notice list" where
  "sort_into env acc [] = Inr acc"
| "sort_into env acc (x # xs) =
     (case insert_notice env x acc of
        Inl e \<Rightarrow> Inl e
      | Inr acc1 \<Rightarrow> sort_into env acc1 xs)"

definition sorted_notices :: "'s env \<Rightarrow> notice list \<Rightarrow> error + notice list" where
  "sorted_notices env ns = sort_into env [] ns"

text \<open>
  \<open>NoticeManager.load\<close>, under \<open>@try_except()\<close>: an exception ends the call and leaves
  \<open>self.notices\<close> as it is at that moment. Returns the file system and the notices
  after the call.
\<close>

definition load :: "'s env \<Rightarrow> bool \<Rightarrow> filesystem \<Rightarrow> notice list \<Rightarrow> filesystem \<times> notice list" where
  "load env from_remote fs notices =
     (let path = (if from_remote then cache_path env else save_path) in
      case (if from_remote then download_latest_notices env fs else Inr fs) of
        Inl e \<Rightarrow> (fs, notices)
      | Inr fs1 \<Rightarrow>
          (case files fs1 path of
             None \<Rightarrow> (fs1, notices)
           | Some Unreadable \<Rightarrow> (fs1, notices)
           | Some (Records raws) \<Rightarrow>
               (let appended = notices @ map (auto_update_config env (Notice_init env)) raws
                in case sorted_notices env appended of
                     Inl e \<Rightarrow> (fs1, appended)
                   | Inr s \<Rightarrow> (fs1, s))))"

text \<open>\<open>NoticeManager.__init__\<close>: an empty list, then \<open>load\<close>.\<close>

definition NoticeManager_init :: "'s env \<Rightarrow> bool \<Rightarrow> filesystem \<Rightarrow> filesystem \<times> notice list" where
  "NoticeManager_init env load_from_remote fs = load env load_from_remote fs []"

text \<open>
  \<open>NoticeManager.save\<close>, under \<open>@try_except()\<close>: where the file cannot be opened for
  writing, nothing is written.
\<close>

definition save :: "'s env \<Rightarrow> filesystem \<Rightarrow> notice list \<Rightarrow> filesystem" where
  "save env fs notices =
     (if writable fs save_path
      then fs\<lparr>files := (files fs)(save_path := Some (Records (to_raw_type env notices)))\<rparr>
      else fs)"

text \<open>Python's \<open>str\<close> of a non-negative integer: its decimal digits.\<close>

fun str_nat :: "nat \<Rightarrow> string" where
  "str_nat n =
     (if n < 10 then [char_of (48 + n)]
      else str_nat (n div 10) @ [char_of (48 + n mod 10)])"

text \<open>
  The \<open>filter\<close> of \<open>show_notices\<close>: \<open>need_show\<close> on every notice, in list order, each
  call in the world the previous one left. An exception ends it; the world keeps what
  the earlier calls did to it.
\<close>

fun filter_need_show :: "'s env \<Rightarrow> notice list \<Rightarrow> 's \<Rightarrow> (error + notice list) \<times> 's" where
  "filter_need_show env [] st = (Inr [], st)"
| "filter_need_show env (n # ns) st =
     (case need_show env n st of
        Inl e \<Rightarrow> (Inl e, st)
      | Inr (b, st1) \<Rightarrow>
          (case filter_need_show env ns st1 of
             (Inl e, st2) \<Rightarrow> (Inl e, st2)
           | (Inr vs, st2) \<Rightarrow> (Inr (if b then n # vs else vs), st2)))"

text \<open>The caption of the message box: \<open>f"\<dots>({idx + 1}/{len(valid_notices)}) - {notice.title}"\<close>.\<close>

definition caption :: "nat \<Rightarrow> nat \<Rightarrow> string \<Rightarrow> string" where
  "caption idx n_valid t =
     [CHR 0xE5, CHR 0x85, CHR 0xAC, CHR 0xE5, CHR 0x91, CHR 0x8A] @ ''('' @
     str_nat (idx + 1) @ ''/'' @ str_nat n_valid @ '') - '' @ t"

text \<open>
  \<open>NoticeManager.show_notices\<close>, under \<open>@try_except()\<close>: the calls of \<open>message_box\<close>, in
  order, and the world after the call. \<open>win32con\<close> is imported on Windows only, so
  elsewhere the first iteration of the loop raises \<open>NameError\<close> before anything is
  shown.
\<close>

definition show_notices :: "'s env \<Rightarrow> notice list \<Rightarrow> 's \<Rightarrow> message_box_call list \<times> 's" where
  "show_notices env notices st =
     (case filter_need_show env notices st of
        (Inl e, st1) \<Rightarrow> ([], st1)
      | (Inr valid_notices, st1) \<Rightarrow>
          (if valid_notices \<noteq> [] \<and> \<not> is_windows env then ([], st1)
           else (map (\<lambda>(idx, n).
                        \<lparr> mb_message = message n,
                          mb_title = caption idx (length valid_notices) (title n),
                          mb_open_url = open_url n \<rparr>)
                     (enumerate 0 valid_notices), st1)))"

text \<open>
  \<open>datetime + timedelta\<close>: raises \<open>OverflowError\<close> outside the years 1 to 9999.
\<close>

definition datetime_add :: "instant \<Rightarrow> timedelta \<Rightarrow> error + instant" where
  "datetime_add t d =
     (if 0 \<le> t + d \<and> t + d < 3652059 * 86400000000 then Inr (t + d) else Inl OverflowError)"

definition timedelta_days :: "int \<Rightarrow> timedelta" where
  "timedelta_days d = d * 86400000000"

text \<open>
  \<open>NoticeManager.add_notice\<close>: the notices after the call, or the exception it raises
  (the method is not under \<open>@try_except()\<close>). \<open>x or y\<close> is \<open>y\<close> where \<open>x\<close> is the empty
  string, \<open>None\<close> or the zero \<open>timedelta\<close>.
\<close>

definition add_notice ::
  "'s env \<Rightarrow> string \<Rightarrow> string \<Rightarrow> string \<Rightarrow> string \<Rightarrow> string \<Rightarrow> string \<Rightarrow>
   timedelta option \<Rightarrow> string \<Rightarrow> 's \<Rightarrow> notice list \<Rightarrow> error + notice list" where
  "add_notice env title' message' sender' send_at' show_type' open_url' valid_duration
     show_only_before_version' st notices =
     (let send_at1 = (if send_at' = [] then format_now env st else send_at');
          valid_duration1 = (case valid_duration of
                               None \<Rightarrow> timedelta_days 7
                             | Some d \<Rightarrow> if d = 0 then timedelta_days 7 else d)
      in if show_type' \<notin> valid_notice_show_type then Inr notices
         else if list_ex (\<lambda>old_notice. title old_notice = title' \<and>
                                        message old_notice = message' \<and>
                                        sender old_notice = sender') notices
           then Inr notices
         else (case datetime_add (get_now env st) valid_duration1 of
                 Inl e \<Rightarrow> Inl e
               | Inr expire \<Rightarrow>
                   Inr (notices @
                     [(Notice_init env)\<lparr> title := title', message := message', sender := sender',
                        send_at := send_at1, show_type := show_type', open_url := open_url',
                        expire_at := format_time env expire,
                        show_only_before_version := show_only_before_version' \<rparr>])))"

subsection \<open>The first-run tracker and the stored form of a notice\<close>

text \<open>
  Modelled from the spec: the first_run module (\<open>is_first_run\<close>, \<open>is_daily_first_run\<close>,
  \<open>is_weekly_first_run\<close>, \<open>is_monthly_first_run\<close>, \<open>reset_first_run\<close>) is not part of
  notice.py. The world is the clock and the persistent store from tracker key to
  last-triggered instant.
\<close>

record world =
  clock :: instant
  first_run_db :: "string \<Rightarrow> instant option"

text \<open>
  Modelled from the spec: the four window granularities of the tracker of the
  first_run module.
\<close>

datatype window = ONE_TIME | DAY | WEEK | MONTH

text \<open>
  Modelled from the spec: the tracker query of the first_run module. True iff no
  instant is stored for the key or, for a calendar window, the stored instant lies in
  another calendar day, week or month than now; the query stores now iff it answers
  true. \<open>period_of\<close> is the calendar: the index of the day, week or month an instant
  lies in.
\<close>

definition is_first_in_window ::
  "(window \<Rightarrow> instant \<Rightarrow> int) \<Rightarrow> window \<Rightarrow> string \<Rightarrow> world \<Rightarrow> bool \<times> world" where
  "is_first_in_window period_of w key wd =
     (let first = (case first_run_db wd key of
                     None \<Rightarrow> True
                   | Some t \<Rightarrow> (case w of
                                  ONE_TIME \<Rightarrow> False
                                | _ \<Rightarrow> period_of w t \<noteq> period_of w (clock wd)))
      in (first, if first then wd\<lparr>first_run_db := (first_run_db wd)(key := Some (clock wd))\<rparr>
                 else wd))"

text \<open>
  Modelled from the spec: \<open>reset_first_run\<close> of the first_run module clears the stored
  instant of the key.
\<close>

definition tracker_reset :: "string \<Rightarrow> world \<Rightarrow> world" where
  "tracker_reset key wd = wd\<lparr>first_run_db := (first_run_db wd)(key := None)\<rparr>"

text \<open>An environment whose clock and first-run functions are those of the tracker above.\<close>

definition with_tracker :: "(window \<Rightarrow> instant \<Rightarrow> int) \<Rightarrow> world env \<Rightarrow> world env" where
  "with_tracker period_of env =
     env\<lparr> get_now := clock,
          is_first_run := is_first_in_window period_of ONE_TIME,
          is_daily_first_run := is_first_in_window period_of DAY,
          is_weekly_first_run := is_first_in_window period_of WEEK,
          is_monthly_first_run := is_first_in_window period_of MONTH,
          reset_first_run := tracker_reset \<rparr>"

text \<open>
  Modelled from the spec: \<open>to_raw_type\<close> of the data_struct module is not part of
  notice.py. A notice is stored as the object of its eight fields, in the order the
  constructor sets them.
\<close>

definition notice_to_raw :: "notice \<Rightarrow> raw_notice" where
  "notice_to_raw n =
     [(''sender'', sender n), (''title'', title n), (''message'', message n),
      (''send_at'', send_at n), (''show_type'', show_type n), (''open_url'', open_url n),
      (''expire_at'', expire_at n),
      (''show_only_before_version'', show_only_before_version n)]"

text \<open>
  Modelled from the spec: \<open>ConfigInterface.auto_update_config\<close> of the data_struct module
  is not part of notice.py. Each entry of the record that names a field sets it; other
  entries are ignored and fields the record omits keep the class defaults.
\<close>

fun set_field :: "notice \<Rightarrow> string \<times> string \<Rightarrow> notice" where
  "set_field n (k, v) =
     (if k = ''sender'' then n\<lparr>sender := v\<rparr>
      else if k = ''title'' then n\<lparr>title := v\<rparr>
      else if k = ''message'' then n\<lparr>message := v\<rparr>
      else if k = ''send_at'' then n\<lparr>send_at := v\<rparr>
      else if k = ''show_type'' then n\<lparr>show_type := v\<rparr>
      else if k = ''open_url'' then n\<lparr>open_url := v\<rparr>
      else if k = ''expire_at'' then n\<lparr>expire_at := v\<rparr>
      else if k = ''show_only_before_version'' then n\<lparr>show_only_before_version := v\<rparr>
      else n)"

text \<open>
  Modelled from the spec: \<open>ConfigInterface.auto_update_config\<close> of the data_struct
  module, on a notice and a stored record: the entries of the record are applied in
  order.
\<close>

definition notice_from_raw :: "notice \<Rightarrow> raw_notice \<Rightarrow> notice" where
  "notice_from_raw n raw = foldl set_field n raw"

text \<open>An environment whose (de)serialisation is the stored form above.\<close>

definition with_stored_form :: "'s env \<Rightarrow> 's env" where
  "with_stored_form env =
     env\<lparr> auto_update_config := notice_from_raw, to_raw_type := map notice_to_raw \<rparr>"

subsection \<open>An example environment\<close>

text \<open>
  A concrete environment on which the model is evaluated: a clock and tracker as
  above, a calendar, a table of timestamps and one pair of versions.
\<close>

definition example_times :: "(string \<times> instant) list" where
  "example_times =
     [(''2020-01-01 00:00:00'', 63713433600000000),
      (''2021-01-01 00:00:00'', 63745056000000000),
      (''2021-05-11 00:00:00'', 63756288000000000),
      (''2021-05-18 00:00:00'', 63756892800000000),
      (''2021-06-01 00:00:00'', 63758102400000000),
      (''2121-05-11 00:00:00'', 66911961600000000)]"

definition example_format_time :: "instant \<Rightarrow> string" where
  "example_format_time t =
     (case List.find (\<lambda>(s, u). u = t) example_times of Some (s, u) \<Rightarrow> s | None \<Rightarrow> [])"

text \<open>
  The proleptic Gregorian calendar on days since 0001-01-01 (a Monday): the number of
  the day, of the week starting on Monday, and of the month (12 * year + month).
\<close>

definition month_index :: "int \<Rightarrow> int" where
  "month_index days =
     (let z = days + 306;
          era = z div 146097;
          doe = z mod 146097;
          yoe = (doe - doe div 1460 + doe div 36524 - doe div 146096) div 365;
          doy = doe - (365 * yoe + yoe div 4 - yoe div 100);
          mp = (5 * doy + 2) div 153;
          m = (if mp < 10 then mp + 3 else mp - 9);
          y = yoe + era * 400 + (if m \<le> 2 then 1 else 0)
      in 12 * y + m)"

fun example_calendar :: "window \<Rightarrow> instant \<Rightarrow> int" where
  "example_calendar ONE_TIME t = 0"
| "example_calendar DAY t = t div 86400000000"
| "example_calendar WEEK t = (t div 86400000000) div 7"
| "example_calendar MONTH t = month_index (t div 86400000000)"

definition example_env :: "world env" where
  "example_env =
     \<lparr> get_now = clock,
       format_now = (\<lambda>wd. example_format_time (clock wd)),
       format_time = example_format_time,
       parse_time = map_of example_times,
       is_windows = True,
       now_version = ''1.0.0'',
       version_less = (\<lambda>a b. a = ''1.0.0'' \<and> b = ''2.0.0''),
       is_first_run = is_first_in_window example_calendar ONE_TIME,
       is_daily_first_run = is_first_in_window example_calendar DAY,
       is_weekly_first_run = is_first_in_window example_calendar WEEK,
       is_monthly_first_run = is_first_in_window example_calendar MONTH,
       reset_first_run = tracker_reset,
       downloads_dir = ''.cached/downloads'',
       os_path_dirname = (\<lambda>p. rev (drop 1 (dropWhile (\<lambda>c. c \<noteq> CHR ''/'') (rev p)))),
       download_github_raw_content = (\<lambda>src dir fs. Inl DownloadError),
       auto_update_config = notice_from_raw,
       to_raw_type = map notice_to_raw \<rparr>"

definition example_world :: world where
  "example_world = \<lparr> clock = 63756288000000000, first_run_db = (\<lambda>k. None) \<rparr>"

definition example_fs :: filesystem where
  "example_fs = \<lparr> files = (\<lambda>p. None), writable = (\<lambda>p. True) \<rparr>"

text \<open>Notice A and notice B of the scenario of the specification, and an expired notice.\<close>

definition notice_A :: notice where
  "notice_A =
     \<lparr> sender = ''dev'', title = ''A'', message = ''first'',
       send_at = ''2021-01-01 00:00:00'', show_type = ONCE, open_url = [],
       expire_at = ''2121-05-11 00:00:00'', show_only_before_version = [] \<rparr>"

definition notice_B :: notice where
  "notice_B =
     \<lparr> sender = ''dev'', title = ''B'', message = ''second'',
       send_at = ''2021-06-01 00:00:00'', show_type = ALWAYS, open_url = ''https://example.org'',
       expire_at = ''2121-05-11 00:00:00'', show_only_before_version = ''2.0.0'' \<rparr>"

definition notice_expired :: notice where
  "notice_expired = notice_B\<lparr> title := ''old'', expire_at := ''2020-01-01 00:00:00'' \<rparr>"

text \<open>Two notices that differ in title and \<open>send_at\<close> and share a tracker key.\<close>

definition notice_underscore_in_title :: notice where
  "notice_underscore_in_title = notice_A\<lparr> title := ''a_b'', send_at := ''c'' \<rparr>"

definition notice_underscore_in_send_at :: notice where
  "notice_underscore_in_send_at = notice_A\<lparr> title := ''a'', send_at := ''b_c'' \<rparr>"

text \<open>
  The file system after notice B, the expired notice and notice A have been saved, in
  this order.
\<close>

definition example_saved_fs :: filesystem where
  "example_saved_fs = save example_env example_fs [notice_B, notice_expired, notice_A]"

text \<open>A notice whose \<open>expire_at\<close> is no timestamp.\<close>

definition notice_malformed :: notice where
  "notice_malformed = notice_B\<lparr> title := ''bad'', expire_at := ''soon'' \<rparr>"

section \<open>Properties\<close>

subsection \<open>Facts about the show types and the example environment\<close>

lemma show_type_distinct:
  "ONCE \<noteq> DAILY" "ONCE \<noteq> WEEKLY" "ONCE \<noteq> MONTHLY" "ONCE \<noteq> ALWAYS" "ONCE \<noteq> DEPRECATED"
  "DAILY \<noteq> WEEKLY" "DAILY \<noteq> MONTHLY" "DAILY \<noteq> ALWAYS" "DAILY \<noteq> DEPRECATED"
  "WEEKLY \<noteq> MONTHLY" "WEEKLY \<noteq> ALWAYS" "WEEKLY \<noteq> DEPRECATED"
  "MONTHLY \<noteq> ALWAYS" "MONTHLY \<noteq> DEPRECATED" "ALWAYS \<noteq> DEPRECATED"
  by (simp_all add: ONCE_def DAILY_def WEEKLY_def MONTHLY_def ALWAYS_def DEPRECATED_def)

lemma example_parse:
  "parse_time example_env ''2020-01-01 00:00:00'' = Some 63713433600000000"
  "parse_time example_env ''2021-01-01 00:00:00'' = Some 63745056000000000"
  "parse_time example_env ''2021-05-11 00:00:00'' = Some 63756288000000000"
  "parse_time example_env ''2021-05-18 00:00:00'' = Some 63756892800000000"
  "parse_time example_env ''2021-06-01 00:00:00'' = Some 63758102400000000"
  "parse_time example_env ''2121-05-11 00:00:00'' = Some 66911961600000000"
  by (simp_all add: example_env_def example_times_def)

lemma example_now: "get_now example_env example_world = 63756288000000000"
  by (simp add: example_env_def example_world_def)

lemma example_version:
  "now_version example_env = ''1.0.0''"
  "version_less example_env ''1.0.0'' ''2.0.0''"
  "\<not> version_less example_env ''1.0.0'' ''1.0.0''"
  by (simp_all add: example_env_def)

lemma example_notice_times:
  "parse_time example_env (send_at notice_A) = Some 63745056000000000"
  "parse_time example_env (send_at notice_B) = Some 63758102400000000"
  "parse_time example_env (expire_at notice_A) = Some 66911961600000000"
  "parse_time example_env (expire_at notice_B) = Some 66911961600000000"
  by (simp_all add: notice_A_def notice_B_def example_parse)

lemma example_fields:
  "message notice_A = ''first''" "title notice_A = ''A''" "open_url notice_A = []"
  "message notice_B = ''second''" "title notice_B = ''B''"
  "open_url notice_B = ''https://example.org''"
  by (simp_all add: notice_A_def notice_B_def)

lemma example_keys:
  "send_at_key example_env notice_A = 63745056000000000"
  "send_at_key example_env notice_B = 63758102400000000"
  by (simp_all add: send_at_key_def example_notice_times)

lemma example_stored_form: "with_stored_form example_env = example_env"
  by (simp add: with_stored_form_def example_env_def)

lemma with_tracker_example: "with_tracker example_calendar example_env = example_env"
  by (simp add: with_tracker_def example_env_def)

lemma str_nat_digits: "str_nat (Suc 0) = ''1''" "str_nat (Suc (Suc 0)) = ''2''"
  by code_simp+

lemma example_need_show_A:
  "need_show example_env notice_A example_world =
     Inr (True, example_world\<lparr>first_run_db :=
        (first_run_db example_world)(get_first_run_key notice_A := Some (clock example_world))\<rparr>)"
proof -
  have "show_type notice_A = ONCE" "show_only_before_version notice_A = []"
    by (simp_all add: notice_A_def)
  moreover have "is_first_run example_env (get_first_run_key notice_A) example_world =
      (True, example_world\<lparr>first_run_db :=
        (first_run_db example_world)(get_first_run_key notice_A := Some (clock example_world))\<rparr>)"
    by (simp add: example_env_def is_first_in_window_def example_world_def)
  ultimately show ?thesis
    by (simp add: need_show_def Let_def example_notice_times example_now)
qed

lemma example_need_show_B:
  "get_now example_env wd = 63756288000000000 \<Longrightarrow>
   need_show example_env notice_B wd = Inr (True, wd)"
proof -
  assume "get_now example_env wd = 63756288000000000"
  moreover have "show_type notice_B = ALWAYS" "show_only_before_version notice_B = ''2.0.0''"
    by (simp_all add: notice_B_def)
  ultimately show ?thesis
    using show_type_distinct
    by (auto simp add: need_show_def Let_def example_notice_times example_version)
qed

lemma example_filter:
  "filter_need_show example_env [notice_A, notice_B] example_world =
     (Inr [notice_A, notice_B],
      example_world\<lparr>first_run_db :=
        (first_run_db example_world)(get_first_run_key notice_A := Some (clock example_world))\<rparr>)"
proof -
  have "get_now example_env (example_world\<lparr>first_run_db :=
        (first_run_db example_world)(get_first_run_key notice_A := Some (clock example_world))\<rparr>) =
        63756288000000000"
    by (simp add: example_env_def example_world_def)
  from example_need_show_B [OF this] show ?thesis
    by (simp add: example_need_show_A)
qed

subsection \<open>The eligibility predicate\<close>

text \<open>
  C1. A notice whose \<open>expire_at\<close> parses to an instant strictly before now is not
  shown, whatever its show type, its version gate and the first-run functions of the
  environment. The expiry test comes first: the world, and with it the tracker, is
  returned as it was.
\<close>

theorem expired_never_shown:
  assumes "parse_time env (expire_at n) = Some t" and "t < get_now env st"
  shows "need_show env n st = Inr (False, st)"
  using assms by (simp add: need_show_def Let_def)

theorem expired_never_shown_witness:
  "parse_time example_env (expire_at notice_expired) = Some 63713433600000000 \<and>
   63713433600000000 < get_now example_env example_world \<and>
   need_show example_env notice_expired example_world = Inr (False, example_world)"
proof -
  have p: "parse_time example_env (expire_at notice_expired) = Some 63713433600000000"
    by (simp add: notice_expired_def example_parse)
  have l: "63713433600000000 < get_now example_env example_world"
    by (simp add: example_now)
  from expired_never_shown [OF p l] p l show ?thesis by simp
qed

text \<open>
  C2. With the tracker of the first_run module as the specification describes it: for
  an unexpired, version-eligible notice of show type ONCE whose key has no stored
  instant, the first call answers true and stores now under the key; a second call in
  the world the first one left answers false, at the same clock reading and at every
  later one, and leaves that world unchanged.
\<close>

theorem once_shown_once:
  fixes env :: "world env"
  assumes "show_type n = ONCE"
    and "parse_time env (expire_at n) = Some t"
    and "clock wd \<le> t"
    and "show_only_before_version n = [] \<or>
         version_less env (now_version env) (show_only_before_version n)"
    and "first_run_db wd (get_first_run_key n) = None"
  shows "(let wd1 = wd\<lparr>first_run_db := (first_run_db wd)(get_first_run_key n := Some (clock wd))\<rparr>
          in need_show (with_tracker cal env) n wd = Inr (True, wd1) \<and>
             need_show (with_tracker cal env) n wd1 = Inr (False, wd1) \<and>
             (\<forall>t2. need_show (with_tracker cal env) n (wd1\<lparr>clock := t2\<rparr>) =
                     Inr (False, wd1\<lparr>clock := t2\<rparr>)))"
  using assms
  by (simp add: need_show_def Let_def with_tracker_def is_first_in_window_def)

theorem once_shown_once_witness:
  "first_run_db example_world (get_first_run_key notice_A) = None \<and>
   need_show example_env notice_A example_world =
     Inr (True, example_world\<lparr>first_run_db :=
       (first_run_db example_world)(get_first_run_key notice_A := Some (clock example_world))\<rparr>) \<and>
   need_show example_env notice_A (example_world\<lparr>first_run_db :=
       (first_run_db example_world)(get_first_run_key notice_A := Some (clock example_world))\<rparr>) =
     Inr (False, example_world\<lparr>first_run_db :=
       (first_run_db example_world)(get_first_run_key notice_A := Some (clock example_world))\<rparr>)"
proof -
  have a: "show_type notice_A = ONCE"
    by (simp add: notice_A_def)
  have p: "parse_time example_env (expire_at notice_A) = Some 66911961600000000"
    by (simp add: notice_A_def example_parse)
  have l: "clock example_world \<le> 66911961600000000"
    by (simp add: example_world_def)
  have v: "show_only_before_version notice_A = [] \<or>
           version_less example_env (now_version example_env) (show_only_before_version notice_A)"
    by (simp add: notice_A_def)
  have f: "first_run_db example_world (get_first_run_key notice_A) = None"
    by (simp add: example_world_def)
  from once_shown_once [OF a p l v f, of example_calendar] f show ?thesis
    by (simp add: with_tracker_example Let_def)
qed

text \<open>
  C3. An unexpired, version-eligible notice of show type ALWAYS is shown on every call:
  the answer is true and the world is returned unchanged, in the given world and in
  every other world with the same clock reading, whatever its tracker holds (after a
  reset, for one).
\<close>

theorem always_shown_without_tracker:
  assumes "show_type n = ALWAYS"
    and "parse_time env (expire_at n) = Some t"
    and "get_now env st \<le> t"
    and "show_only_before_version n = [] \<or>
         version_less env (now_version env) (show_only_before_version n)"
  shows "need_show env n st = Inr (True, st) \<and>
         (\<forall>st'. get_now env st' = get_now env st \<longrightarrow> need_show env n st' = Inr (True, st'))"
  using assms show_type_distinct by (auto simp add: need_show_def Let_def)

theorem always_shown_without_tracker_witness:
  "show_type notice_B = ALWAYS \<and>
   need_show example_env notice_B example_world = Inr (True, example_world) \<and>
   need_show example_env notice_B (tracker_reset (get_first_run_key notice_B) example_world) =
     Inr (True, tracker_reset (get_first_run_key notice_B) example_world)"
proof -
  have a: "show_type notice_B = ALWAYS"
    by (simp add: notice_B_def)
  have p: "parse_time example_env (expire_at notice_B) = Some 66911961600000000"
    by (simp add: notice_B_def example_parse)
  have l: "get_now example_env example_world \<le> 66911961600000000"
    by (simp add: example_now)
  have v: "show_only_before_version notice_B = [] \<or>
           version_less example_env (now_version example_env) (show_only_before_version notice_B)"
    by (simp add: notice_B_def example_version)
  have c: "get_now example_env (tracker_reset (get_first_run_key notice_B) example_world) =
           get_now example_env example_world"
    by (simp add: example_env_def tracker_reset_def)
  from always_shown_without_tracker [OF a p l v] a c show ?thesis by blast
qed

text \<open>
  C4. A notice whose show type is DEPRECATED, or is none of the six tokens, is not
  shown in any world, the world right after \<open>reset_first_run\<close> included, provided its
  \<open>expire_at\<close> is a timestamp that parses; the world is returned unchanged.
\<close>

theorem never_shown_deprecated_or_unknown:
  assumes "show_type n = DEPRECATED \<or> show_type n \<notin> valid_notice_show_type"
    and "parse_time env (expire_at n) = Some t"
  shows "need_show env n st = Inr (False, st) \<and>
         need_show env n (Notice_reset_first_run env n st) =
           Inr (False, Notice_reset_first_run env n st)"
  using assms show_type_distinct
  by (auto simp add: need_show_def Let_def valid_notice_show_type_def)

theorem never_shown_deprecated_or_unknown_witness:
  "need_show example_env (notice_A\<lparr>show_type := DEPRECATED\<rparr>) example_world =
     Inr (False, example_world) \<and>
   ''bogus'' \<notin> valid_notice_show_type \<and>
   need_show example_env (notice_A\<lparr>show_type := ''bogus''\<rparr>)
     (Notice_reset_first_run example_env (notice_A\<lparr>show_type := ''bogus''\<rparr>) example_world) =
     Inr (False,
       Notice_reset_first_run example_env (notice_A\<lparr>show_type := ''bogus''\<rparr>) example_world)"
proof -
  have d: "show_type (notice_A\<lparr>show_type := DEPRECATED\<rparr>) = DEPRECATED \<or>
           show_type (notice_A\<lparr>show_type := DEPRECATED\<rparr>) \<notin> valid_notice_show_type"
    by simp
  have b: "''bogus'' \<notin> valid_notice_show_type"
    by (simp add: valid_notice_show_type_def ONCE_def DAILY_def WEEKLY_def MONTHLY_def
        ALWAYS_def DEPRECATED_def)
  then have b': "show_type (notice_A\<lparr>show_type := ''bogus''\<rparr>) = DEPRECATED \<or>
           show_type (notice_A\<lparr>show_type := ''bogus''\<rparr>) \<notin> valid_notice_show_type"
    by simp
  have p: "parse_time example_env (expire_at (notice_A\<lparr>show_type := s\<rparr>)) =
           Some 66911961600000000" for s
    by (simp add: notice_A_def example_parse)
  from never_shown_deprecated_or_unknown [OF d p, of example_world]
       never_shown_deprecated_or_unknown [OF b' p, of example_world] b
  show ?thesis by blast
qed

subsection \<open>The tracker key\<close>

lemma split_at_last_separator:
  assumes "c \<notin> set y" and "c \<notin> set y'" and "x @ c # y = x' @ c # y'"
  shows "x = x' \<and> y = y'"
  using assms
proof (induction x arbitrary: x')
  case Nil
  then show ?case by (cases x') auto
next
  case (Cons a x)
  then show ?case by (cases x') auto
qed

text \<open>
  C5, as amended. On notices whose \<open>send_at\<close> holds no underscore, as every timestamp
  of the form YYYY-MM-DD HH:MM:SS does, the tracker key determines title and
  \<open>send_at\<close>: two notices have the same key iff they agree on both.
\<close>

theorem tracker_key_injective:
  assumes "CHR ''_'' \<notin> set (send_at a)" and "CHR ''_'' \<notin> set (send_at b)"
  shows "(get_first_run_key a = get_first_run_key b) =
         (title a = title b \<and> send_at a = send_at b)"
proof
  assume "get_first_run_key a = get_first_run_key b"
  then have "title a @ CHR ''_'' # send_at a = title b @ CHR ''_'' # send_at b"
    by (simp add: get_first_run_key_def)
  with assms show "title a = title b \<and> send_at a = send_at b"
    by (rule split_at_last_separator)
next
  assume "title a = title b \<and> send_at a = send_at b"
  then show "get_first_run_key a = get_first_run_key b"
    by (simp add: get_first_run_key_def)
qed

theorem tracker_key_injective_witness:
  "CHR ''_'' \<notin> set (send_at notice_A) \<and> CHR ''_'' \<notin> set (send_at notice_B) \<and>
   title notice_A \<noteq> title notice_B \<and>
   get_first_run_key notice_A \<noteq> get_first_run_key notice_B"
proof -
  have a: "CHR ''_'' \<notin> set (send_at notice_A)" by (simp add: notice_A_def)
  have b: "CHR ''_'' \<notin> set (send_at notice_B)" by (simp add: notice_B_def)
  have t: "title notice_A \<noteq> title notice_B" by (simp add: notice_A_def notice_B_def)
  from tracker_key_injective [OF a b] a b t show ?thesis by blast
qed

text \<open>
  Without the restriction the key is not injective: the underscore that separates
  title and \<open>send_at\<close> may occur in both.
\<close>

theorem tracker_key_collision:
  "(title notice_underscore_in_title, send_at notice_underscore_in_title) \<noteq>
     (title notice_underscore_in_send_at, send_at notice_underscore_in_send_at) \<and>
   get_first_run_key notice_underscore_in_title =
     get_first_run_key notice_underscore_in_send_at"
  by (simp add: notice_underscore_in_title_def notice_underscore_in_send_at_def
      get_first_run_key_def)

subsection \<open>Adding a notice\<close>

text \<open>
  C6. \<open>add_notice\<close> with a show type outside the valid set returns normally and
  leaves the notice list as it was, in every state and for all other arguments.
\<close>

theorem invalid_show_type_rejected:
  assumes "show_type' \<notin> valid_notice_show_type"
  shows "add_notice env t m s sa show_type' u vd v st notices = Inr notices"
  using assms by (simp add: add_notice_def Let_def)

theorem invalid_show_type_rejected_witness:
  "''bogus'' \<notin> valid_notice_show_type \<and>
   add_notice example_env ''T'' ''M'' ''S'' ''2021-06-01 00:00:00'' ''bogus'' [] None []
     example_world [notice_A, notice_B] = Inr [notice_A, notice_B]"
proof -
  have b: "''bogus'' \<notin> valid_notice_show_type"
    by (simp add: valid_notice_show_type_def ONCE_def DAILY_def WEEKLY_def MONTHLY_def
        ALWAYS_def DEPRECATED_def)
  from invalid_show_type_rejected [OF b, where env = example_env] b show ?thesis by simp
qed

lemma example_add:
  "add_notice example_env ''T'' ''M'' ''S'' [] ONCE [] None [] example_world [notice_A] =
   Inr [notice_A,
        \<lparr> sender = ''S'', title = ''T'', message = ''M'', send_at = ''2021-05-11 00:00:00'',
          show_type = ONCE, open_url = [], expire_at = ''2021-05-18 00:00:00'',
          show_only_before_version = [] \<rparr>]"
  by (simp add: add_notice_def Let_def valid_notice_show_type_def notice_A_def Notice_init_def
      datetime_add_def timedelta_days_def example_env_def example_world_def
      example_format_time_def example_times_def)

text \<open>
  C7. Where the list holds a notice with the given title, message and sender,
  \<open>add_notice\<close> with this triple returns normally and leaves the list as it was,
  whatever the other arguments. Hence, where a first call with the triple appends a
  notice, it appends exactly one, and a second call with the same triple, with any
  \<open>send_at\<close> and any other arguments, appends nothing.
\<close>

theorem duplicate_triple_refused:
  "((\<exists>old \<in> set notices. title old = t \<and> message old = m \<and> sender old = s) \<longrightarrow>
      add_notice env t m s sa sty u vd v st notices = Inr notices) \<and>
   (add_notice env t m s sa sty u vd v st notices = Inr ns1 \<and> ns1 \<noteq> notices \<longrightarrow>
      (\<exists>n. ns1 = notices @ [n] \<and> title n = t \<and> message n = m \<and> sender n = s) \<and>
      add_notice env t m s sa' sty' u' vd' v' st' ns1 = Inr ns1)"
proof (intro conjI impI)
  assume "\<exists>old \<in> set notices. title old = t \<and> message old = m \<and> sender old = s"
  then show "add_notice env t m s sa sty u vd v st notices = Inr notices"
    by (auto simp add: add_notice_def Let_def list_ex_iff)
next
  assume a: "add_notice env t m s sa sty u vd v st notices = Inr ns1 \<and> ns1 \<noteq> notices"
  then show n: "\<exists>n. ns1 = notices @ [n] \<and> title n = t \<and> message n = m \<and> sender n = s"
    by (auto simp add: add_notice_def Let_def split: if_splits sum.splits)
  then have "\<exists>old \<in> set ns1. title old = t \<and> message old = m \<and> sender old = s"
    by auto
  then show "add_notice env t m s sa' sty' u' vd' v' st' ns1 = Inr ns1"
    by (auto simp add: add_notice_def Let_def list_ex_iff)
qed

theorem duplicate_triple_refused_witness:
  "add_notice example_env ''T'' ''M'' ''S'' [] ONCE [] None [] example_world [notice_A] =
     Inr [notice_A,
        \<lparr> sender = ''S'', title = ''T'', message = ''M'', send_at = ''2021-05-11 00:00:00'',
          show_type = ONCE, open_url = [], expire_at = ''2021-05-18 00:00:00'',
          show_only_before_version = [] \<rparr>] \<and>
   add_notice example_env ''T'' ''M'' ''S'' ''2021-06-01 00:00:00'' ALWAYS [] None []
     example_world
     [notice_A,
        \<lparr> sender = ''S'', title = ''T'', message = ''M'', send_at = ''2021-05-11 00:00:00'',
          show_type = ONCE, open_url = [], expire_at = ''2021-05-18 00:00:00'',
          show_only_before_version = [] \<rparr>] =
     Inr [notice_A,
        \<lparr> sender = ''S'', title = ''T'', message = ''M'', send_at = ''2021-05-11 00:00:00'',
          show_type = ONCE, open_url = [], expire_at = ''2021-05-18 00:00:00'',
          show_only_before_version = [] \<rparr>]"
  using example_add
    duplicate_triple_refused [where env = example_env and t = "''T''" and m = "''M''"
      and s = "''S''" and sa = "[]" and sty = ONCE and u = "[]" and vd = None and v = "[]"
      and st = example_world and notices = "[notice_A]"
      and sa' = "''2021-06-01 00:00:00''" and sty' = ALWAYS and u' = "[]" and vd' = None
      and v' = "[]" and st' = example_world]
  by simp

subsection \<open>Loading, showing and saving\<close>

lemma filter_need_show_subseq:
  "filter_need_show env ns st = (Inr vs, st') \<Longrightarrow> subseq vs ns"
proof (induction ns arbitrary: st vs st')
  case Nil
  then show ?case by simp
next
  case (Cons n ns)
  then show ?case
    by (auto split: sum.splits prod.splits if_splits)
qed

lemma filter_need_show_trace:
  assumes "length bs = length ns" and "length sts = Suc (length ns)"
    and "\<forall>i < length ns. need_show env (ns ! i) (sts ! i) = Inr (bs ! i, sts ! Suc i)"
  shows "filter_need_show env ns (sts ! 0) =
           (Inr (map fst (filter snd (zip ns bs))), last sts)"
  using assms
proof (induction ns arbitrary: bs sts)
  case Nil
  then obtain s where "sts = [s]"
    by (cases sts) auto
  then show ?case by simp
next
  case (Cons n ns)
  from Cons.prems(1) obtain b bs' where bs: "bs = b # bs'"
    by (cases bs) auto
  from Cons.prems(2) obtain s0 s1 sts' where sts: "sts = s0 # s1 # sts'"
    by (cases sts; cases "tl sts") auto
  from Cons.prems(3) bs sts have first: "need_show env n s0 = Inr (b, s1)"
    by auto
  have rest: "\<forall>i < length ns. need_show env (ns ! i) ((s1 # sts') ! i) =
                Inr (bs' ! i, (s1 # sts') ! Suc i)"
  proof (intro allI impI)
    fix i assume "i < length ns"
    then have "Suc i < length (n # ns)" by simp
    with Cons.prems(3) have "need_show env ((n # ns) ! Suc i) (sts ! Suc i) =
        Inr (bs ! Suc i, sts ! Suc (Suc i))"
      by blast
    with bs sts show "need_show env (ns ! i) ((s1 # sts') ! i) =
        Inr (bs' ! i, (s1 # sts') ! Suc i)"
      by simp
  qed
  from Cons.prems(1,2) bs sts have "length bs' = length ns" "length (s1 # sts') = Suc (length ns)"
    by auto
  from Cons.IH [OF this rest]
  have "filter_need_show env ns s1 = (Inr (map fst (filter snd (zip ns bs'))), last (s1 # sts'))"
    by simp
  with first bs sts show ?case
    by simp
qed

lemma subseq_sorted_key:
  assumes "subseq xs ys" and "sorted (map f ys)"
  shows "sorted (map f xs)"
  using assms
proof (induction rule: list_emb.induct)
  case (list_emb_Nil ys)
  then show ?case by simp
next
  case (list_emb_Cons xs ys y)
  then show ?case by simp
next
  case (list_emb_Cons2 x y xs ys)
  from list_emb_Cons2.hyps(2) have "\<forall>a \<in> set xs. a \<in> set ys"
    by (auto dest: list_emb_set)
  with list_emb_Cons2 show ?case by auto
qed

lemma show_notices_calls:
  assumes "is_windows env" and "filter_need_show env ns st = (Inr vs, st')"
  shows "show_notices env ns st =
           (map (\<lambda>(idx, n). \<lparr> mb_message = message n,
                   mb_title = caption idx (length vs) (title n),
                   mb_open_url = open_url n \<rparr>) (enumerate 0 vs), st')"
  using assms by (simp add: show_notices_def)

lemma Notice_lt_parsed:
  assumes "parse_time env (send_at x) \<noteq> None" and "parse_time env (send_at y) \<noteq> None"
  shows "Notice_lt env x y = Inr (send_at_key env x < send_at_key env y)"
  using assms by (auto simp add: Notice_lt_def send_at_key_def)

lemma filter_key_above:
  assumes "sorted (map f (y # ys))" and "f x < f y"
  shows "filter (\<lambda>n. f n = f x) (y # ys) = []"
proof -
  from assms have "\<forall>n \<in> set (y # ys). f x < f n"
    by auto
  then show ?thesis
    by (auto simp add: filter_empty_conv)
qed

lemma insert_notice_sorted:
  assumes "parse_time env (send_at x) \<noteq> None"
    and "\<forall>n \<in> set ys. parse_time env (send_at n) \<noteq> None"
    and "sorted (map (send_at_key env) ys)"
  shows "\<exists>r. insert_notice env x ys = Inr r \<and> mset r = add_mset x (mset ys) \<and>
           sorted (map (send_at_key env) r) \<and>
           (\<forall>k. filter (\<lambda>n. send_at_key env n = k) r =
                filter (\<lambda>n. send_at_key env n = k) ys @
                (if send_at_key env x = k then [x] else []))"
  using assms
proof (induction ys)
  case Nil
  then show ?case by simp
next
  case (Cons y ys)
  let ?f = "send_at_key env"
  from Cons.prems have lt: "Notice_lt env x y = Inr (?f x < ?f y)"
    by (simp add: Notice_lt_parsed)
  show ?case
  proof (cases "?f x < ?f y")
    case True
    with Cons.prems(3) have "filter (\<lambda>n. ?f n = ?f x) (y # ys) = []"
      by (intro filter_key_above) auto
    with True Cons.prems(3) lt show ?thesis
      by auto
  next
    case False
    from Cons.prems have "\<forall>n \<in> set ys. parse_time env (send_at n) \<noteq> None"
      and "sorted (map ?f ys)"
      by auto
    from Cons.IH [OF Cons.prems(1) this] obtain r where
      r: "insert_notice env x ys = Inr r" "mset r = add_mset x (mset ys)"
         "sorted (map ?f r)"
         "\<forall>k. filter (\<lambda>n. ?f n = k) r =
                filter (\<lambda>n. ?f n = k) ys @ (if ?f x = k then [x] else [])"
      by blast
    from r(2) have "set r = insert x (set ys)"
      by (metis set_mset_add_mset_insert set_mset_mset)
    with Cons.prems(3) False have "\<forall>n \<in> set r. ?f y \<le> ?f n"
      by auto
    with r False lt show ?thesis
      by auto
  qed
qed

lemma sort_into_sorted:
  assumes "\<forall>n \<in> set acc \<union> set xs. parse_time env (send_at n) \<noteq> None"
    and "sorted (map (send_at_key env) acc)"
  shows "\<exists>r. sort_into env acc xs = Inr r \<and> mset r = mset acc + mset xs \<and>
           sorted (map (send_at_key env) r) \<and>
           (\<forall>k. filter (\<lambda>n. send_at_key env n = k) r =
                filter (\<lambda>n. send_at_key env n = k) acc @
                filter (\<lambda>n. send_at_key env n = k) xs)"
  using assms
proof (induction xs arbitrary: acc)
  case Nil
  then show ?case by simp
next
  case (Cons x xs)
  let ?f = "send_at_key env"
  from Cons.prems have "parse_time env (send_at x) \<noteq> None"
    and "\<forall>n \<in> set acc. parse_time env (send_at n) \<noteq> None"
    by auto
  from insert_notice_sorted [OF this Cons.prems(2)] obtain a where
    a: "insert_notice env x acc = Inr a" "mset a = add_mset x (mset acc)"
       "sorted (map ?f a)"
       "\<forall>k. filter (\<lambda>n. ?f n = k) a =
              filter (\<lambda>n. ?f n = k) acc @ (if ?f x = k then [x] else [])"
    by blast
  from a(2) have "set a = insert x (set acc)"
    by (metis set_mset_add_mset_insert set_mset_mset)
  with Cons.prems have "\<forall>n \<in> set a \<union> set xs. parse_time env (send_at n) \<noteq> None"
    by auto
  from Cons.IH [OF this a(3)] obtain r where
    r: "sort_into env a xs = Inr r" "mset r = mset a + mset xs" "sorted (map ?f r)"
       "\<forall>k. filter (\<lambda>n. ?f n = k) r = filter (\<lambda>n. ?f n = k) a @ filter (\<lambda>n. ?f n = k) xs"
    by blast
  from a r show ?case
    by auto
qed

lemma sorted_notices_result:
  assumes "sorted_notices env xs = r"
    and "\<forall>n \<in> set xs. parse_time env (send_at n) \<noteq> None"
  shows "r = Inr (sort_key (send_at_key env) xs)"
proof -
  let ?f = "send_at_key env"
  from assms(2) have "\<forall>n \<in> set [] \<union> set xs. parse_time env (send_at n) \<noteq> None"
    by simp
  from sort_into_sorted [OF this, of ] obtain s where
    s: "sort_into env [] xs = Inr s" "mset s = mset xs" "sorted (map ?f s)"
       "\<forall>k. filter (\<lambda>n. ?f n = k) s = filter (\<lambda>n. ?f n = k) xs"
    by auto
  have "filter (\<lambda>n. ?f k = ?f n) s = filter (\<lambda>n. ?f k = ?f n) xs" for k
  proof -
    have "(\<lambda>n. ?f k = ?f n) = (\<lambda>n. ?f n = ?f k)"
      by auto
    with s(4) show ?thesis
      by simp
  qed
  with s(2,3) have "sort_key ?f xs = s"
    by (intro properties_for_sort_key) auto
  with s(1) assms(1) show ?thesis
    by (simp add: sorted_notices_def)
qed

lemma insert_notice_set:
  "insert_notice env x ys = Inr r \<Longrightarrow> set r = insert x (set ys)"
proof (induction ys arbitrary: r)
  case Nil
  then show ?case by auto
next
  case (Cons y ys)
  show ?case
  proof (cases "Notice_lt env x y")
    case (Inl e)
    with Cons.prems show ?thesis by simp
  next
    case (Inr lt)
    show ?thesis
    proof (cases lt)
      case True
      with Inr Cons.prems show ?thesis by auto
    next
      case False
      show ?thesis
      proof (cases "insert_notice env x ys")
        case (Inl e)
        with False \<open>Notice_lt env x y = Inr lt\<close> Cons.prems show ?thesis by simp
      next
        case (Inr r')
        with False \<open>Notice_lt env x y = Inr lt\<close> Cons.prems have "r = y # r'" by simp
        with Cons.IH [OF Inr] show ?thesis by auto
      qed
    qed
  qed
qed

lemma sort_into_set:
  "sort_into env acc xs = Inr r \<Longrightarrow> set r = set acc \<union> set xs"
proof (induction xs arbitrary: acc r)
  case Nil
  then show ?case by simp
next
  case (Cons x xs)
  then show ?case
    by (auto split: sum.splits dest!: insert_notice_set)
qed

lemma sorted_notices_set:
  "sorted_notices env xs = Inr s \<Longrightarrow> set s = set xs"
  by (auto simp add: sorted_notices_def dest: sort_into_set)

lemma sorted_notices_short:
  "length xs < 2 \<Longrightarrow> sorted_notices env xs = Inr xs"
  by (cases xs) (auto simp add: sorted_notices_def length_Suc_conv)

lemma insert_notice_raises:
  assumes "ys \<noteq> []"
    and "parse_time env (send_at x) = None \<or> parse_time env (send_at (hd ys)) = None"
  shows "insert_notice env x ys = Inl ValueError"
  using assms by (cases ys) (auto simp add: Notice_lt_def split: option.splits)

lemma sort_into_raises:
  assumes "acc \<noteq> []"
    and "\<forall>n \<in> set acc. parse_time env (send_at n) \<noteq> None"
    and "sorted (map (send_at_key env) acc)"
    and "\<exists>n \<in> set xs. parse_time env (send_at n) = None"
  shows "sort_into env acc xs = Inl ValueError"
  using assms
proof (induction xs arbitrary: acc)
  case Nil
  then show ?case by simp
next
  case (Cons x xs)
  show ?case
  proof (cases "parse_time env (send_at x)")
    case None
    with Cons.prems(1) have "insert_notice env x acc = Inl ValueError"
      by (intro insert_notice_raises) auto
    then show ?thesis by simp
  next
    case (Some t)
    then have "parse_time env (send_at x) \<noteq> None" by simp
    from insert_notice_sorted [OF this Cons.prems(2,3)] obtain a where
      a: "insert_notice env x acc = Inr a" "mset a = add_mset x (mset acc)"
         "sorted (map (send_at_key env) a)"
      by blast
    from a(2) have sa: "set a = insert x (set acc)"
      by (metis set_mset_add_mset_insert set_mset_mset)
    then have "a \<noteq> []" by auto
    moreover from sa Some Cons.prems(2) have "\<forall>n \<in> set a. parse_time env (send_at n) \<noteq> None"
      by auto
    moreover from Some Cons.prems(4) have "\<exists>n \<in> set xs. parse_time env (send_at n) = None"
      by auto
    ultimately have "sort_into env a xs = Inl ValueError"
      using a(3) by (intro Cons.IH)
    with a(1) show ?thesis by simp
  qed
qed

lemma sorted_notices_raises:
  assumes "2 \<le> length xs" and "\<exists>n \<in> set xs. parse_time env (send_at n) = None"
  shows "sorted_notices env xs = Inl ValueError"
proof -
  from assms(1) obtain x y zs where xs: "xs = x # y # zs"
    by (cases xs; cases "tl xs") auto
  show ?thesis
  proof (cases "parse_time env (send_at x)")
    case None
    then have "insert_notice env y [x] = Inl ValueError"
      by (intro insert_notice_raises) auto
    with xs show ?thesis by (simp add: sorted_notices_def)
  next
    case (Some t)
    with assms(2) xs have "\<exists>n \<in> set (y # zs). parse_time env (send_at n) = None"
      by auto
    with Some have "sort_into env [x] (y # zs) = Inl ValueError"
      by (intro sort_into_raises) auto
    with xs show ?thesis by (simp add: sorted_notices_def)
  qed
qed

lemma sorted_by_Notice_lt:
  assumes "sorted (map (send_at_key env) ns)"
    and "\<forall>n \<in> set ns. parse_time env (send_at n) \<noteq> None"
    and "i < j" and "j < length ns"
  shows "Notice_lt env (ns ! j) (ns ! i) = Inr False"
proof -
  from assms(3,4) have i: "i < length ns" by simp
  from assms(1,3,4) have "map (send_at_key env) ns ! i \<le> map (send_at_key env) ns ! j"
    by (simp add: sorted_iff_nth_mono del: nth_map)
  with i assms(4) have le: "send_at_key env (ns ! i) \<le> send_at_key env (ns ! j)"
    by simp
  from assms(2) i obtain a where a: "parse_time env (send_at (ns ! i)) = Some a"
    by (metis nth_mem option.exhaust)
  from assms(2,4) obtain b where b: "parse_time env (send_at (ns ! j)) = Some b"
    by (metis nth_mem option.exhaust)
  from le a b show ?thesis
    by (simp add: Notice_lt_def send_at_key_def)
qed

lemma load_fresh_sorted:
  assumes "NoticeManager_init env from_remote fs = (fs', ns)"
    and "\<forall>n \<in> set ns. parse_time env (send_at n) \<noteq> None"
  shows "sorted (map (send_at_key env) ns)"
proof -
  let ?path = "if from_remote then cache_path env else save_path"
  let ?src = "if from_remote then download_latest_notices env fs else Inr fs"
  show ?thesis
  proof (cases ?src)
    case (Inl e)
    with assms(1) show ?thesis
      by (auto simp add: NoticeManager_init_def load_def Let_def split: if_splits)
  next
    case (Inr fs1)
    show ?thesis
    proof (cases "files fs1 ?path")
      case None
      with Inr assms(1) show ?thesis
        by (auto simp add: NoticeManager_init_def load_def Let_def split: if_splits)
    next
      case (Some c)
      show ?thesis
      proof (cases c)
        case Unreadable
        with Some Inr assms(1) show ?thesis
          by (auto simp add: NoticeManager_init_def load_def Let_def split: if_splits)
      next
        case (Records raws)
        let ?new = "map (auto_update_config env (Notice_init env)) raws"
        from Records Some Inr assms(1)
        have r: "(case sorted_notices env ?new of Inl e \<Rightarrow> (fs1, ?new) | Inr s \<Rightarrow> (fs1, s)) = (fs', ns)"
          by (auto simp add: NoticeManager_init_def load_def Let_def split: if_splits)
        show ?thesis
        proof (cases "sorted_notices env ?new")
          case (Inl e)
          with r have eq: "ns = ?new" by simp
          with assms(2) have "\<forall>n \<in> set ?new. parse_time env (send_at n) \<noteq> None" by simp
          from sorted_notices_result [OF Inl this] show ?thesis by simp
        next
          case (Inr s)
          with r have eq: "ns = s" by simp
          from Inr have "set s = set ?new"
            by (rule sorted_notices_set)
          with assms(2) eq have "\<forall>n \<in> set ?new. parse_time env (send_at n) \<noteq> None" by simp
          from sorted_notices_result [OF Inr this] eq show ?thesis by simp
        qed
      qed
    qed
  qed
qed

lemma load_read_sorted:
  assumes "(if from_remote then download_latest_notices env fs else Inr fs) = Inr fs1"
    and "files fs1 (if from_remote then cache_path env else save_path) = Some (Records raws)"
    and "\<forall>n \<in> set (old @ map (auto_update_config env (Notice_init env)) raws).
           parse_time env (send_at n) \<noteq> None"
  shows "load env from_remote fs old =
           (fs1, sort_key (send_at_key env) (old @ map (auto_update_config env (Notice_init env)) raws))"
proof -
  let ?all = "old @ map (auto_update_config env (Notice_init env)) raws"
  have "sorted_notices env ?all = Inr (sort_key (send_at_key env) ?all)"
    using sorted_notices_result [OF refl assms(3)] .
  with assms(1,2) show ?thesis
    by (simp add: load_def Let_def split: if_splits)
qed

lemma caption_unfold:
  "caption idx c t =
     [CHR 0xE5, CHR 0x85, CHR 0xAC, CHR 0xE5, CHR 0x91, CHR 0x8A] @ ''('' @
     str_nat (idx + 1) @ ''/'' @ str_nat c @ '') - '' @ t"
  by (simp add: caption_def)

lemma notice_roundtrip: "notice_from_raw d (notice_to_raw n) = n"
  by (cases n) (simp add: notice_from_raw_def notice_to_raw_def)

lemma map_notice_roundtrip: "map (notice_from_raw d \<circ> notice_to_raw) ns = ns"
  by (induction ns) (simp_all add: notice_roundtrip)

lemma sort_key_short: "length xs < 2 \<Longrightarrow> sort_key f xs = xs"
  by (cases xs) (auto simp add: length_Suc_conv)

lemma example_expired:
  "send_at_key example_env notice_expired = 63758102400000000"
  "parse_time example_env (send_at notice_expired) = Some 63758102400000000"
  "parse_time example_env (expire_at notice_expired) = Some 63713433600000000"
  by (simp_all add: send_at_key_def notice_expired_def notice_B_def example_parse)

lemma example_need_show_expired:
  "get_now example_env wd = 63756288000000000 \<Longrightarrow>
   need_show example_env notice_expired wd = Inr (False, wd)"
  by (simp add: need_show_def Let_def example_expired)

lemma example_load:
  "NoticeManager_init example_env False example_saved_fs =
     (example_saved_fs, [notice_A, notice_B, notice_expired])"
proof -
  have f: "files example_saved_fs save_path =
             Some (Records [notice_to_raw notice_B, notice_to_raw notice_expired,
                            notice_to_raw notice_A])"
    by (simp add: example_saved_fs_def save_def example_fs_def example_env_def)
  have n: "auto_update_config example_env (Notice_init example_env) (notice_to_raw x) = x" for x
    by (simp add: example_env_def notice_roundtrip)
  have "\<forall>n \<in> set [notice_B, notice_expired, notice_A].
          parse_time example_env (send_at n) \<noteq> None"
    by (simp add: example_notice_times example_expired)
  from sorted_notices_result [OF refl this]
  have s: "sorted_notices example_env [notice_B, notice_expired, notice_A] =
             Inr [notice_A, notice_B, notice_expired]"
    by (simp add: example_keys example_expired)
  show ?thesis
    by (simp add: NoticeManager_init_def load_def Let_def f n s)
qed

lemma example_unsorted:
  "\<not> sorted (map (send_at_key example_env) [notice_B, notice_A])"
  by (simp add: example_keys)

lemma example_load_missing:
  "load example_env False example_fs [notice_B, notice_A] = (example_fs, [notice_B, notice_A])"
  by (simp add: load_def Let_def example_fs_def)

lemma example_not_windows:
  "show_notices (example_env\<lparr>is_windows := False\<rparr>) [notice_B] example_world =
     ([], example_world)"
proof -
  have "show_type notice_B = ALWAYS" "show_only_before_version notice_B = ''2.0.0''"
    by (simp_all add: notice_B_def)
  then have "need_show (example_env\<lparr>is_windows := False\<rparr>) notice_B example_world =
          Inr (True, example_world)"
    using show_type_distinct
    by (auto simp add: need_show_def Let_def example_notice_times example_version example_now)
  then have "filter_need_show (example_env\<lparr>is_windows := False\<rparr>) [notice_B] example_world =
          (Inr [notice_B], example_world)"
    by simp
  then show ?thesis
    by (simp add: show_notices_def)
qed

lemma example_malformed:
  "need_show example_env notice_malformed example_world = Inl ValueError"
  by (simp add: need_show_def Let_def notice_malformed_def example_env_def example_times_def)

lemma example_show_malformed:
  "show_notices example_env [notice_B, notice_malformed] example_world = ([], example_world)"
  using example_need_show_B [OF example_now] example_malformed
  by (simp add: show_notices_def)

text \<open>
  C8, as amended. Let every \<open>send_at\<close> of the notice list \<open>ns\<close> parse. If \<open>ns\<close> is what
  the constructor's \<open>load\<close> leaves, it is sorted ascending by the parsed \<open>send_at\<close>,
  whatever the file system holds. If \<open>ns\<close> is what \<open>load\<close> leaves after reading the
  records of the file into a list \<open>old\<close>, it is sorted and, for each timestamp, the
  notices with this timestamp are in the order they had in \<open>old\<close> followed by the
  records. On Windows, where \<open>ns\<close> is sorted and \<open>need_show\<close>, called on the notices of
  \<open>ns\<close> in list order, each call in the world the previous one left, raises on none
  and gives the answers \<open>bs\<close>, \<open>show_notices\<close> calls \<open>message_box\<close> on exactly the
  notices whose answer is true, in list order, the notice at position \<open>idx\<close> (from 0)
  among them under the caption with \<open>idx + 1\<close> of their number, and leaves the world
  the last call of \<open>need_show\<close> left.
\<close>

theorem load_sorted_and_shown_in_order:
  assumes parses: "\<forall>n \<in> set ns. parse_time env (send_at n) \<noteq> None"
  shows
    "(NoticeManager_init env from_remote fs = (fs', ns) \<longrightarrow>
        sorted (map (send_at_key env) ns)) \<and>
     ((if from_remote then download_latest_notices env fs else Inr fs) = Inr fs1 \<and>
      files fs1 (if from_remote then cache_path env else save_path) = Some (Records raws) \<and>
      load env from_remote fs old = (fs', ns) \<longrightarrow>
        sorted (map (send_at_key env) ns) \<and>
        (\<forall>k. filter (\<lambda>n. send_at_key env n = k) ns =
             filter (\<lambda>n. send_at_key env n = k)
               (old @ map (auto_update_config env (Notice_init env)) raws))) \<and>
     (is_windows env \<and> sorted (map (send_at_key env) ns) \<and>
      length bs = length ns \<and> length sts = Suc (length ns) \<and>
      (\<forall>i < length ns. need_show env (ns ! i) (sts ! i) = Inr (bs ! i, sts ! Suc i)) \<longrightarrow>
        (let vs = map fst (filter snd (zip ns bs))
         in subseq vs ns \<and> sorted (map (send_at_key env) vs) \<and>
            show_notices env ns (sts ! 0) =
              (map (\<lambda>(idx, n).
                      \<lparr> mb_message = message n,
                        mb_title = [CHR 0xE5, CHR 0x85, CHR 0xAC, CHR 0xE5, CHR 0x91, CHR 0x8A] @
                          ''('' @ str_nat (idx + 1) @ ''/'' @ str_nat (length vs) @ '') - '' @
                          title n,
                        mb_open_url = open_url n \<rparr>)
                   (enumerate 0 vs), last sts)))"
proof (intro conjI impI)
  assume "NoticeManager_init env from_remote fs = (fs', ns)"
  from load_fresh_sorted [OF this parses] show "sorted (map (send_at_key env) ns)" .
next
  let ?all = "old @ map (auto_update_config env (Notice_init env)) raws"
  assume a: "(if from_remote then download_latest_notices env fs else Inr fs) = Inr fs1 \<and>
      files fs1 (if from_remote then cache_path env else save_path) = Some (Records raws) \<and>
      load env from_remote fs old = (fs', ns)"
  then have "(case sorted_notices env ?all of Inl e \<Rightarrow> (fs1, ?all) | Inr s \<Rightarrow> (fs1, s)) = (fs', ns)"
    by (auto simp add: load_def Let_def split: if_splits)
  then have "set ns = set ?all"
    by (cases "sorted_notices env ?all") (auto dest: sorted_notices_set)
  with parses have "\<forall>n \<in> set ?all. parse_time env (send_at n) \<noteq> None"
    by simp
  from load_read_sorted [OF conjunct1 [OF a] conjunct1 [OF conjunct2 [OF a]] this] a
  have ns: "ns = sort_key (send_at_key env) ?all"
    by simp
  then show "sorted (map (send_at_key env) ns)"
    by simp
  from ns show "\<forall>k. filter (\<lambda>n. send_at_key env n = k) ns =
             filter (\<lambda>n. send_at_key env n = k) ?all"
    by (simp add: sort_key_stable)
next
  let ?vs = "map fst (filter snd (zip ns bs))"
  assume a: "is_windows env \<and> sorted (map (send_at_key env) ns) \<and>
      length bs = length ns \<and> length sts = Suc (length ns) \<and>
      (\<forall>i < length ns. need_show env (ns ! i) (sts ! i) = Inr (bs ! i, sts ! Suc i))"
  then have run: "filter_need_show env ns (sts ! 0) = (Inr ?vs, last sts)"
    by (intro filter_need_show_trace) auto
  then have sub: "subseq ?vs ns"
    by (rule filter_need_show_subseq)
  from a have "sorted (map (send_at_key env) ns)"
    by simp
  with sub have srt: "sorted (map (send_at_key env) ?vs)"
    by (rule subseq_sorted_key)
  from a run have "show_notices env ns (sts ! 0) =
          (map (\<lambda>(idx, n).
                  \<lparr> mb_message = message n,
                    mb_title = [CHR 0xE5, CHR 0x85, CHR 0xAC, CHR 0xE5, CHR 0x91, CHR 0x8A] @
                      ''('' @ str_nat (idx + 1) @ ''/'' @ str_nat (length ?vs) @ '') - '' @
                      title n,
                    mb_open_url = open_url n \<rparr>)
               (enumerate 0 ?vs), last sts)"
    by (simp add: show_notices_calls caption_unfold)
  with sub srt show "let vs = map fst (filter snd (zip ns bs))
         in subseq vs ns \<and> sorted (map (send_at_key env) vs) \<and>
            show_notices env ns (sts ! 0) =
              (map (\<lambda>(idx, n).
                      \<lparr> mb_message = message n,
                        mb_title = [CHR 0xE5, CHR 0x85, CHR 0xAC, CHR 0xE5, CHR 0x91, CHR 0x8A] @
                          ''('' @ str_nat (idx + 1) @ ''/'' @ str_nat (length vs) @ '') - '' @
                          title n,
                        mb_open_url = open_url n \<rparr>)
                   (enumerate 0 vs), last sts)"
    by (simp add: Let_def)
qed

theorem load_sorted_and_shown_in_order_witness:
  "NoticeManager_init example_env False example_saved_fs =
     (example_saved_fs, [notice_A, notice_B, notice_expired]) \<and>
   is_windows example_env \<and>
   sorted (map (send_at_key example_env) [notice_A, notice_B, notice_expired]) \<and>
   need_show example_env notice_expired example_world = Inr (False, example_world) \<and>
   fst (show_notices example_env [notice_A, notice_B, notice_expired] example_world) =
     [\<lparr> mb_message = ''first'',
        mb_title = [CHR 0xE5, CHR 0x85, CHR 0xAC, CHR 0xE5, CHR 0x91, CHR 0x8A] @ ''(1/2) - A'',
        mb_open_url = [] \<rparr>,
      \<lparr> mb_message = ''second'',
        mb_title = [CHR 0xE5, CHR 0x85, CHR 0xAC, CHR 0xE5, CHR 0x91, CHR 0x8A] @ ''(2/2) - B'',
        mb_open_url = ''https://example.org'' \<rparr>]"
proof -
  let ?w1 = "example_world\<lparr>first_run_db :=
        (first_run_db example_world)(get_first_run_key notice_A := Some (clock example_world))\<rparr>"
  let ?ns = "[notice_A, notice_B, notice_expired]"
  let ?bs = "[True, True, False]"
  let ?sts = "[example_world, ?w1, ?w1, ?w1]"
  have p: "\<forall>n \<in> set ?ns. parse_time example_env (send_at n) \<noteq> None"
    by (simp add: example_notice_times example_expired)
  have w: "is_windows example_env"
    by (simp add: example_env_def)
  have c: "get_now example_env ?w1 = 63756288000000000"
    by (simp add: example_env_def example_world_def)
  have e: "need_show example_env notice_expired example_world = Inr (False, example_world)"
    by (rule example_need_show_expired [OF example_now])
  have run: "\<forall>i < length ?ns. need_show example_env (?ns ! i) (?sts ! i) =
               Inr (?bs ! i, ?sts ! Suc i)"
    using example_need_show_A example_need_show_B [OF c] example_need_show_expired [OF c]
    by (auto simp add: less_Suc_eq)
  note t = load_sorted_and_shown_in_order [OF p, where from_remote = False
      and fs = example_saved_fs and fs' = example_saved_fs and bs = ?bs and sts = ?sts]
  from t example_load have s: "sorted (map (send_at_key example_env) ?ns)"
    by blast
  from t w s run
  have "show_notices example_env ?ns example_world =
          (map (\<lambda>(idx, n).
                  \<lparr> mb_message = message n,
                    mb_title = [CHR 0xE5, CHR 0x85, CHR 0xAC, CHR 0xE5, CHR 0x91, CHR 0x8A] @
                      ''('' @ str_nat (idx + 1) @ ''/'' @ str_nat (length [notice_A, notice_B]) @
                      '') - '' @ title n,
                    mb_open_url = open_url n \<rparr>)
               (enumerate 0 [notice_A, notice_B]), ?w1)"
    by (simp add: Let_def)
  then have "fst (show_notices example_env ?ns example_world) =
     [\<lparr> mb_message = ''first'',
        mb_title = [CHR 0xE5, CHR 0x85, CHR 0xAC, CHR 0xE5, CHR 0x91, CHR 0x8A] @ ''(1/2) - A'',
        mb_open_url = [] \<rparr>,
      \<lparr> mb_message = ''second'',
        mb_title = [CHR 0xE5, CHR 0x85, CHR 0xAC, CHR 0xE5, CHR 0x91, CHR 0x8A] @ ''(2/2) - B'',
        mb_open_url = ''https://example.org'' \<rparr>]"
    by (simp add: example_fields str_nat_digits del: str_nat.simps)
  with example_load w s e show ?thesis
    by blast
qed

text \<open>
  The claim without these conditions fails. A \<open>load\<close> that finds no file returns and
  leaves an unsorted list unsorted. Off Windows \<open>show_notices\<close> shows nothing, also
  when a notice is eligible. Where \<open>need_show\<close> raises on one notice, nothing is shown,
  also when another notice is eligible.
\<close>

theorem load_sorted_and_shown_counterexample:
  "load example_env False example_fs [notice_B, notice_A] = (example_fs, [notice_B, notice_A]) \<and>
   \<not> sorted (map (send_at_key example_env) [notice_B, notice_A]) \<and>
   need_show example_env notice_B example_world = Inr (True, example_world) \<and>
   show_notices (example_env\<lparr>is_windows := False\<rparr>) [notice_B] example_world =
     ([], example_world) \<and>
   need_show example_env notice_malformed example_world = Inl ValueError \<and>
   show_notices example_env [notice_B, notice_malformed] example_world = ([], example_world)"
  using example_load_missing example_unsorted example_need_show_B [OF example_now]
    example_not_windows example_malformed example_show_malformed
  by blast

text \<open>
  C9. With the stored form of a notice as the specification describes it: where the
  file can be written and every \<open>send_at\<close> parses (or there are fewer than two
  notices), \<open>save\<close> followed by the construction of a manager that loads from the
  local path gives the saved notices, each with the field values it had, stably
  sorted by the parsed \<open>send_at\<close>.
\<close>

theorem save_then_load_roundtrip:
  assumes "writable fs save_path"
    and "length ns < 2 \<or> (\<forall>n \<in> set ns. parse_time env (send_at n) \<noteq> None)"
  shows "NoticeManager_init (with_stored_form env) False (save (with_stored_form env) fs ns) =
           (save (with_stored_form env) fs ns, sort_key (send_at_key env) ns)"
proof -
  let ?e = "with_stored_form env"
  have key: "send_at_key ?e = send_at_key env"
    by (simp add: with_stored_form_def send_at_key_def fun_eq_iff)
  have new: "map (auto_update_config ?e (Notice_init ?e)) (to_raw_type ?e ns) = ns"
    by (simp add: with_stored_form_def map_notice_roundtrip)
  have saved: "files (save ?e fs ns) save_path = Some (Records (to_raw_type ?e ns))"
    using assms(1) by (simp add: save_def)
  have sorted_ok: "sorted_notices ?e ns = Inr (sort_key (send_at_key env) ns)"
  proof (cases "length ns < 2")
    case True
    then show ?thesis by (simp add: sorted_notices_short sort_key_short)
  next
    case False
    with assms(2) have "\<forall>n \<in> set ns. parse_time ?e (send_at n) \<noteq> None"
      by (simp add: with_stored_form_def)
    from sorted_notices_result [OF refl this] key show ?thesis by simp
  qed
  show ?thesis
    by (simp add: NoticeManager_init_def load_def Let_def saved new sorted_ok)
qed

theorem save_then_load_roundtrip_witness:
  "writable example_fs save_path \<and>
   NoticeManager_init example_env False (save example_env example_fs [notice_B, notice_A]) =
     (save example_env example_fs [notice_B, notice_A], [notice_A, notice_B])"
proof -
  have w: "writable example_fs save_path"
    by (simp add: example_fs_def)
  have p: "length [notice_B, notice_A] < 2 \<or>
           (\<forall>n \<in> set [notice_B, notice_A]. parse_time example_env (send_at n) \<noteq> None)"
    by (simp add: example_notice_times)
  from save_then_load_roundtrip [OF w p] w show ?thesis
    by (simp add: example_stored_form example_keys)
qed

subsection \<open>The default version gate\<close>

lemma set_field_other:
  "k \<noteq> ''show_only_before_version'' \<Longrightarrow>
   show_only_before_version (set_field n (k, v)) = show_only_before_version n"
  by simp

lemma omitted_field_keeps_default:
  "''show_only_before_version'' \<notin> fst ` set raw \<Longrightarrow>
   show_only_before_version (notice_from_raw n raw) = show_only_before_version n"
proof (induction raw arbitrary: n)
  case Nil
  then show ?case by (simp add: notice_from_raw_def)
next
  case (Cons kv raw)
  obtain k v where kv: "kv = (k, v)" by (cases kv)
  with Cons.prems have k: "k \<noteq> ''show_only_before_version''" by auto
  from Cons.prems have "''show_only_before_version'' \<notin> fst ` set raw" by auto
  from Cons.IH [OF this, of "set_field n kv"] kv set_field_other [OF k, of n v]
  show ?case by (simp add: notice_from_raw_def del: set_field.simps)
qed

text \<open>
  C10. The constructor sets \<open>show_only_before_version\<close> to the current version. Where
  the current version is not empty and not less than itself, a notice that carries
  this value, as every notice does whose record leaves the field at its default, is
  not shown in any world, whatever its show type, provided its \<open>expire_at\<close> parses.
\<close>

theorem default_version_gate:
  assumes "now_version env \<noteq> []"
    and "\<not> version_less env (now_version env) (now_version env)"
    and "show_only_before_version n = now_version env"
    and "parse_time env (expire_at n) = Some t"
  shows "show_only_before_version (Notice_init env) = now_version env \<and>
         need_show env n st = Inr (False, st)"
  using assms by (simp add: need_show_def Notice_init_def Let_def)

theorem default_version_gate_witness:
  "now_version example_env \<noteq> [] \<and>
   \<not> version_less example_env (now_version example_env) (now_version example_env) \<and>
   get_now example_env example_world \<le> 66911961600000000 \<and>
   parse_time example_env (expire_at (Notice_init example_env)) = Some 66911961600000000 \<and>
   need_show example_env (Notice_init example_env) example_world = Inr (False, example_world)"
proof -
  have a: "now_version example_env \<noteq> []"
    by (simp add: example_version)
  have b: "\<not> version_less example_env (now_version example_env) (now_version example_env)"
    by (simp add: example_version)
  have c: "show_only_before_version (Notice_init example_env) = now_version example_env"
    by (simp add: Notice_init_def)
  have p: "parse_time example_env (expire_at (Notice_init example_env)) = Some 66911961600000000"
    by (simp add: Notice_init_def example_parse)
  have l: "get_now example_env example_world \<le> 66911961600000000"
    by (simp add: example_now)
  from default_version_gate [OF a b c p, of example_world] a b p l show ?thesis by blast
qed

end
